theory Spec2Isabelle
  imports Main "HOL-Library.Sublist"
begin

section \<open>The ERC20 parser: data model\<close>

text \<open>
  The program (\<^verbatim>\<open>src/index.js\<close>) keeps two files in its \<^verbatim>\<open>parser\<close> folder:
  \<^verbatim>\<open>addresses.json\<close>, an array of \<^verbatim>\<open>{address, method}\<close> objects, newest first, and
  \<^verbatim>\<open>addresses.txt\<close>, one address per line. It sends Telegram messages through
  \<^verbatim>\<open>bot.sendMessage\<close>. Two handlers change the files: the block handler registered by
  \<^verbatim>\<open>listenForTransactions\<close> and the timer-driven \<^verbatim>\<open>fetchAndSaveAddresses\<close>.

  An object of the JSON array is an \<open>entry\<close>. The listener always stores a string as
  \<open>method\<close>; the poller stores what \<^verbatim>\<open>extractMethod\<close> returned, which is \<^verbatim>\<open>null\<close> when
  the lookup failed, so the field is an option.
\<close>

record entry =
  address :: string
  "method" :: "string option"

text \<open>
  The fields of an ethers transaction that the block handler reads. The source's field
  \<^verbatim>\<open>from\<close> is named \<open>from_address\<close> here.
\<close>

record transaction =
  data :: string
  nonce :: nat
  from_address :: string

text \<open>
  A record of the index API's \<^verbatim>\<open>data\<close> array. A field that is absent, \<^verbatim>\<open>null\<close> or the
  empty string is the empty string here: JavaScript treats all three as falsy in
  \<^verbatim>\<open>item.address && ...\<close>, and none of them equals \<^verbatim>\<open>"Uniswap V2"\<close>.
\<close>

record item =
  item_address :: string
  item_name :: string
  creating_transaction_hash :: string

text \<open>
  What \<^verbatim>\<open>axios.get(apiUrl)\<close> gives: the request is rejected (the \<^verbatim>\<open>catch\<close> block logs it),
  the body has no array under \<^verbatim>\<open>data\<close> (the \<^verbatim>\<open>else\<close> branch logs it), or it has one.
\<close>

datatype response = RequestFailed | InvalidFormat | Records "item list"

text \<open>
  What \<^verbatim>\<open>rpcProvider.getTransaction(hash)\<close> gives inside \<^verbatim>\<open>extractMethod\<close>: a
  transaction with its input data, \<^verbatim>\<open>null\<close>, or a rejection.
\<close>

datatype rpc_result = TxFound string | TxNotFound | TxFailed

text \<open>
  The effects of the program on the outside, in the order in which they are invoked:
  a call of \<^verbatim>\<open>bot.sendMessage\<close> with its text, a \<^verbatim>\<open>writeFileSync\<close> of the JSON file and
  one of the TXT file, each with the content written.
\<close>

datatype event = SendMessage string | WriteJSON "entry list" | WriteTXT string

text \<open>
  The state both handlers work on: the two files (\<open>None\<close> when \<^verbatim>\<open>fs.existsSync\<close> is
  false) and the effects so far, oldest first. Console output is not part of it.
\<close>

record world =
  outputJSON :: "entry list option"
  outputTXT :: "string option"
  events :: "event list"

text \<open>
  The only exception of the block handler that the model follows: the awaited
  \<^verbatim>\<open>bot.sendMessage\<close> is rejected, which ends the handler of that block.
\<close>

datatype error = SendRejected

section \<open>Strings\<close>

definition newline :: string where
  "newline = [CHR 0x0A]"

text \<open>
  \<^verbatim>\<open>String.prototype.toLowerCase\<close> on ASCII text (addresses are hexadecimal): a letter
  \<^verbatim>\<open>A\<close> to \<^verbatim>\<open>Z\<close> (codes 65 to 90, where bit 5 is clear) moves up by 32, which sets
  bit 5; every other character stays. JavaScript also lowers cased characters outside
  ASCII, which this function leaves as they are: the two differ only on an address that is
  not hexadecimal text. The general theorems below hold for any function in its place.
\<close>

definition toLowerChar :: "char \<Rightarrow> char" where
  "toLowerChar c =
     (if 65 \<le> (of_char c :: nat) \<and> (of_char c :: nat) \<le> 90
      then Char (digit0 c) (digit1 c) (digit2 c) (digit3 c) (digit4 c) True (digit6 c) (digit7 c)
      else c)"

definition toLowerCase :: "string \<Rightarrow> string" where
  "toLowerCase s = map toLowerChar s"

text \<open>\<^verbatim>\<open>Array.prototype.join\<close> with a separator.\<close>

fun join :: "string list \<Rightarrow> string \<Rightarrow> string" where
  "join [] sep = []"
| "join [x] sep = x"
| "join (x # y # ys) sep = x @ sep @ join (y # ys) sep"

text \<open>
  A template literal prints \<^verbatim>\<open>null\<close> as the text \<^verbatim>\<open>null\<close>: the second line of a
  message for an entry whose method lookup failed.
\<close>

definition showMethod :: "string option \<Rightarrow> string" where
  "showMethod m = (case m of None \<Rightarrow> ''null'' | Some s \<Rightarrow> s)"

definition message :: "entry \<Rightarrow> string" where
  "message e = address e @ newline @ showMethod (method e)"

section \<open>The registry files\<close>

text \<open>
  \<^verbatim>\<open>fs.existsSync(outputJSON) ? JSON.parse(fs.readFileSync(outputJSON)) : []\<close>, the
  expression both handlers read the registry with.
\<close>

definition readJSON :: "world \<Rightarrow> entry list" where
  "readJSON w = (case outputJSON w of None \<Rightarrow> [] | Some es \<Rightarrow> es)"

text \<open>The content of the TXT mirror, empty when the file does not exist.\<close>

definition readTXT :: "world \<Rightarrow> string" where
  "readTXT w = (case outputTXT w of None \<Rightarrow> [] | Some s \<Rightarrow> s)"

definition sendMessage :: "string \<Rightarrow> world \<Rightarrow> world" where
  "sendMessage text w = w\<lparr>events := events w @ [SendMessage text]\<rparr>"

definition writeJSON :: "entry list \<Rightarrow> world \<Rightarrow> world" where
  "writeJSON es w = w\<lparr>outputJSON := Some es, events := events w @ [WriteJSON es]\<rparr>"

definition writeTXT :: "string \<Rightarrow> world \<Rightarrow> world" where
  "writeTXT s w = w\<lparr>outputTXT := Some s, events := events w @ [WriteTXT s]\<rparr>"

section \<open>The block handler of listenForTransactions\<close>

text \<open>
  The body of \<^verbatim>\<open>if (transaction) { ... }\<close> (lines 51 to 88). \<open>getCreateAddress\<close> stands
  for \<^verbatim>\<open>ethers.getCreateAddress\<close>, \<open>delivered\<close> says for each text whether the promise
  of \<^verbatim>\<open>bot.sendMessage\<close> resolves, \<open>allowedMethods\<close> is the array parsed from
  \<^verbatim>\<open>methods.json\<close> at the start of the block. The message is sent and awaited first;
  the registry is read, compared and written afterwards, with no \<^verbatim>\<open>await\<close> in between.
\<close>

definition handleTransaction ::
  "(string \<Rightarrow> nat \<Rightarrow> string) \<Rightarrow> (string \<Rightarrow> bool) \<Rightarrow> string list \<Rightarrow> world \<Rightarrow> transaction
     \<Rightarrow> error option \<times> world" where
  "handleTransaction getCreateAddress delivered allowedMethods w tx =
     (let inputData = data tx;
          methodSignature = take 10 inputData;
          contractAddress = toLowerCase (getCreateAddress (from_address tx) (nonce tx))
      in if methodSignature \<in> set allowedMethods then
           let text = contractAddress @ newline @ methodSignature;
               w1 = sendMessage text w
           in if delivered text then
                let transactionData = \<lparr>address = contractAddress, method = Some methodSignature\<rparr>;
                    existingData = readJSON w1
                in if \<not> list_ex (\<lambda>d. address d = contractAddress) existingData
                   then (None, writeJSON (transactionData # existingData) w1)
                   else (None, w1)
              else (Some SendRejected, w1)
         else (None, w))"

text \<open>
  The loop over \<^verbatim>\<open>block.transactions\<close>: each element is what
  \<^verbatim>\<open>wssProvider.getTransaction\<close> returned (\<open>None\<close> for \<^verbatim>\<open>null\<close>, which is skipped). An
  exception leaves the loop.
\<close>

fun handleTransactions ::
  "(string \<Rightarrow> nat \<Rightarrow> string) \<Rightarrow> (string \<Rightarrow> bool) \<Rightarrow> string list \<Rightarrow> world
     \<Rightarrow> transaction option list \<Rightarrow> error option \<times> world" where
  "handleTransactions g d allowedMethods w [] = (None, w)"
| "handleTransactions g d allowedMethods w (None # txs) =
     handleTransactions g d allowedMethods w txs"
| "handleTransactions g d allowedMethods w (Some tx # txs) =
     (case handleTransaction g d allowedMethods w tx of
        (Some e, w') \<Rightarrow> (Some e, w')
      | (None, w') \<Rightarrow> handleTransactions g d allowedMethods w' txs)"

text \<open>
  The handler of one \<^verbatim>\<open>block\<close> event: \<open>block\<close> is what \<^verbatim>\<open>wssProvider.getBlock\<close> returned,
  with the transactions already looked up.
\<close>

definition listenForTransactions ::
  "(string \<Rightarrow> nat \<Rightarrow> string) \<Rightarrow> (string \<Rightarrow> bool) \<Rightarrow> string list \<Rightarrow> world
     \<Rightarrow> transaction option list option \<Rightarrow> error option \<times> world" where
  "listenForTransactions g d allowedMethods w block =
     (case block of
        None \<Rightarrow> (None, w)
      | Some txs \<Rightarrow> handleTransactions g d allowedMethods w txs)"

section \<open>The poller\<close>

text \<open>\<^verbatim>\<open>extractMethod\<close>: the first ten characters of the input data, or \<^verbatim>\<open>null\<close>.\<close>

definition extractMethod :: "(string \<Rightarrow> rpc_result) \<Rightarrow> string \<Rightarrow> string option" where
  "extractMethod rpc transactionHash =
     (case rpc transactionHash of
        TxFound d \<Rightarrow> Some (take 10 d)
      | TxNotFound \<Rightarrow> None
      | TxFailed \<Rightarrow> None)"

text \<open>The \<^verbatim>\<open>filter\<close> and \<^verbatim>\<open>map\<close> of lines 102 to 110.\<close>

definition newAddresses :: "(string \<Rightarrow> rpc_result) \<Rightarrow> item list \<Rightarrow> entry list" where
  "newAddresses rpc items =
     map (\<lambda>i. \<lparr>address = toLowerCase (item_address i),
               method = extractMethod rpc (creating_transaction_hash i)\<rparr>)
       (filter (\<lambda>i. item_address i \<noteq> [] \<and> item_name i \<noteq> ''Uniswap V2'') items)"

text \<open>Line 118: the new entries whose address no existing entry has.\<close>

definition uniqueNewAddresses :: "entry list \<Rightarrow> entry list \<Rightarrow> entry list" where
  "uniqueNewAddresses new existingAddresses =
     filter (\<lambda>a. \<not> list_ex (\<lambda>existing. address existing = address a) existingAddresses) new"

text \<open>
  Lines 112 to 148, which run without an \<^verbatim>\<open>await\<close>: \<^verbatim>\<open>forEach\<close> calls each \<^verbatim>\<open>async\<close>
  callback up to its \<^verbatim>\<open>await\<close>, so every \<^verbatim>\<open>bot.sendMessage\<close> is invoked before the
  JSON file is written; a rejected promise there is nobody's exception.
\<close>

definition saveAddresses :: "entry list \<Rightarrow> world \<Rightarrow> world" where
  "saveAddresses new w =
     (let existingAddresses = readJSON w;
          unique = uniqueNewAddresses new existingAddresses;
          mergedAddresses = unique @ existingAddresses;
          w1 = (if unique \<noteq> [] then fold (\<lambda>a. sendMessage (message a)) unique w else w);
          w2 = writeJSON mergedAddresses w1
      in if unique \<noteq> [] then
           let addressesToWrite = map address unique
           in (case outputTXT w2 of
                 Some existingTxtContent \<Rightarrow>
                   writeTXT (join addressesToWrite newline @ newline @ existingTxtContent) w2
               | None \<Rightarrow> writeTXT (join addressesToWrite newline @ newline) w2)
         else w2)"

definition fetchAndSaveAddresses :: "(string \<Rightarrow> rpc_result) \<Rightarrow> response \<Rightarrow> world \<Rightarrow> world" where
  "fetchAndSaveAddresses rpc resp w =
     (case resp of
        RequestFailed \<Rightarrow> w
      | InvalidFormat \<Rightarrow> w
      | Records items \<Rightarrow> saveAddresses (newAddresses rpc items) w)"

section \<open>The property of C3 as a predicate on the effects\<close>

text \<open>
  Follows the claim's words, not the source: a message is sent only for an entry that the
  last completed write of the JSON file (or, before any write, the list \<open>committed\<close>)
  contains.
\<close>

fun notifiedAfterCommit :: "entry list \<Rightarrow> event list \<Rightarrow> bool" where
  "notifiedAfterCommit committed [] = True"
| "notifiedAfterCommit committed (SendMessage text # evs) =
     (list_ex (\<lambda>e. message e = text) committed \<and> notifiedAfterCommit committed evs)"
| "notifiedAfterCommit committed (WriteJSON es # evs) = notifiedAfterCommit es evs"
| "notifiedAfterCommit committed (WriteTXT s # evs) = notifiedAfterCommit committed evs"

section \<open>The two views as sets of addresses\<close>

text \<open>
  The TXT file is a list of lines, each ended by a newline; the addresses the JSON
  file describes are those of its entries, the addresses the TXT file describes are its
  lines.
\<close>

fun splitLines :: "string \<Rightarrow> string list" where
  "splitLines [] = []"
| "splitLines (c # cs) =
     (if c = CHR 0x0A then [] # splitLines cs
      else (case splitLines cs of [] \<Rightarrow> [[c]] | l # ls \<Rightarrow> (c # l) # ls))"

definition jsonAddresses :: "world \<Rightarrow> string set" where
  "jsonAddresses w = set (map address (readJSON w))"

definition txtAddresses :: "world \<Rightarrow> string set" where
  "txtAddresses w = set (splitLines (readTXT w))"

section \<open>The order of message and write, as predicates on the effects\<close>

text \<open>The texts of the messages among some effects, in the order of sending.\<close>

fun sentMessages :: "event list \<Rightarrow> string list" where
  "sentMessages [] = []"
| "sentMessages (SendMessage text # evs) = text # sentMessages evs"
| "sentMessages (WriteJSON es # evs) = sentMessages evs"
| "sentMessages (WriteTXT s # evs) = sentMessages evs"

text \<open>The content of the JSON file after some effects, when it was \<open>committed\<close> before.\<close>

fun committedAfter :: "entry list \<Rightarrow> event list \<Rightarrow> entry list" where
  "committedAfter committed [] = committed"
| "committedAfter committed (SendMessage text # evs) = committedAfter committed evs"
| "committedAfter committed (WriteJSON es # evs) = committedAfter es evs"
| "committedAfter committed (WriteTXT s # evs) = committedAfter committed evs"

text \<open>
  The order the handlers have: every entry that a write of the JSON file adds to the
  list (it is not in the content \<open>committed\<close> before that write) had its message sent
  earlier (it is among \<open>sent\<close>, or sent by an earlier effect of the list).
\<close>

fun commitsAfterSend :: "entry list \<Rightarrow> string list \<Rightarrow> event list \<Rightarrow> bool" where
  "commitsAfterSend committed sent [] = True"
| "commitsAfterSend committed sent (SendMessage text # evs) =
     commitsAfterSend committed (text # sent) evs"
| "commitsAfterSend committed sent (WriteJSON es # evs) =
     (list_all (\<lambda>e. e \<in> set committed \<or> message e \<in> set sent) es
      \<and> commitsAfterSend es sent evs)"
| "commitsAfterSend committed sent (WriteTXT s # evs) = commitsAfterSend committed sent evs"

section \<open>The listener's step on both sides of its await\<close>

text \<open>
  The only \<^verbatim>\<open>await\<close> between the first and the last effect of the listener's step is the
  one of \<^verbatim>\<open>bot.sendMessage\<close> at line 66. \<open>sendStep\<close> is the step up to it (lines 52 to
  66: selector, address, filter, the call of \<^verbatim>\<open>bot.sendMessage\<close>); \<open>admitStep\<close> is the
  step after it (lines 69 to 86: read, compare, write), which runs only when the filter
  accepted the selector and the promise resolved. The JavaScript runtime runs each of
  them, and lines 112 to 148 of the poller (\<open>saveAddresses\<close>), without interruption; other
  handlers can run in between.
\<close>

definition sendStep :: "(string \<Rightarrow> nat \<Rightarrow> string) \<Rightarrow> string list \<Rightarrow> transaction \<Rightarrow> world \<Rightarrow> world" where
  "sendStep getCreateAddress allowedMethods tx w =
     (let inputData = data tx;
          methodSignature = take 10 inputData;
          contractAddress = toLowerCase (getCreateAddress (from_address tx) (nonce tx))
      in if methodSignature \<in> set allowedMethods
         then sendMessage (contractAddress @ newline @ methodSignature) w
         else w)"

definition admitStep ::
  "(string \<Rightarrow> nat \<Rightarrow> string) \<Rightarrow> (string \<Rightarrow> bool) \<Rightarrow> string list \<Rightarrow> transaction \<Rightarrow> world
     \<Rightarrow> world" where
  "admitStep getCreateAddress delivered allowedMethods tx w =
     (let inputData = data tx;
          methodSignature = take 10 inputData;
          contractAddress = toLowerCase (getCreateAddress (from_address tx) (nonce tx));
          text = contractAddress @ newline @ methodSignature
      in if methodSignature \<in> set allowedMethods \<and> delivered text then
           let transactionData = \<lparr>address = contractAddress, method = Some methodSignature\<rparr>;
               existingData = readJSON w
           in if \<not> list_ex (\<lambda>d. address d = contractAddress) existingData
              then writeJSON (transactionData # existingData) w
              else w
         else w)"

text \<open>
  The stretches of code that run without interruption, and the two kinds of handler that
  admit: the listener's step on a transaction (two stretches) and the poller's save of the
  new entries of a response (one stretch).
\<close>

datatype segment = ListenerSend transaction | ListenerAdmit transaction | PollerSave "entry list"

fun runSegment ::
  "(string \<Rightarrow> nat \<Rightarrow> string) \<Rightarrow> (string \<Rightarrow> bool) \<Rightarrow> string list \<Rightarrow> segment \<Rightarrow> world \<Rightarrow> world" where
  "runSegment g d allowedMethods (ListenerSend tx) w = sendStep g allowedMethods tx w"
| "runSegment g d allowedMethods (ListenerAdmit tx) w = admitStep g d allowedMethods tx w"
| "runSegment g d allowedMethods (PollerSave new) w = saveAddresses new w"

definition runSchedule ::
  "(string \<Rightarrow> nat \<Rightarrow> string) \<Rightarrow> (string \<Rightarrow> bool) \<Rightarrow> string list \<Rightarrow> segment list \<Rightarrow> world
     \<Rightarrow> world" where
  "runSchedule g d allowedMethods segs w = fold (runSegment g d allowedMethods) segs w"

text \<open>All the orders in which the stretches of two handlers can run.\<close>

fun interleavings :: "'a list \<Rightarrow> 'a list \<Rightarrow> 'a list list" where
  "interleavings [] ys = [ys]"
| "interleavings (x # xs) [] = [x # xs]"
| "interleavings (x # xs) (y # ys) =
     map ((#) x) (interleavings xs (y # ys)) @ map ((#) y) (interleavings (x # xs) ys)"

datatype task = ListenerTask transaction | PollerTask "entry list"

fun segments :: "task \<Rightarrow> segment list" where
  "segments (ListenerTask tx) = [ListenerSend tx, ListenerAdmit tx]"
| "segments (PollerTask new) = [PollerSave new]"

text \<open>The entries a handler offers to the registry.\<close>

fun candidates :: "(string \<Rightarrow> nat \<Rightarrow> string) \<Rightarrow> task \<Rightarrow> entry list" where
  "candidates g (ListenerTask tx) =
     [\<lparr>address = toLowerCase (g (from_address tx) (nonce tx)), method = Some (take 10 (data tx))\<rparr>]"
| "candidates g (PollerTask new) = new"

text \<open>
  A listener's candidate reaches the registry when the filter accepts its selector and
  its message is delivered; the poller's candidates always do.
\<close>

fun passes :: "(string \<Rightarrow> nat \<Rightarrow> string) \<Rightarrow> (string \<Rightarrow> bool) \<Rightarrow> string list \<Rightarrow> task \<Rightarrow> bool" where
  "passes g d allowedMethods (ListenerTask tx) =
     (take 10 (data tx) \<in> set allowedMethods
      \<and> d (toLowerCase (g (from_address tx) (nonce tx)) @ newline @ take 10 (data tx)))"
| "passes g d allowedMethods (PollerTask new) = True"

text \<open>No address of \<open>cs\<close> is the address of an entry of \<open>es\<close>.\<close>

definition absent :: "entry list \<Rightarrow> entry list \<Rightarrow> bool" where
  "absent cs es = list_all (\<lambda>c. \<not> list_ex (\<lambda>x. address x = address c) es) cs"

section \<open>Concrete inputs\<close>

text \<open>A fresh installation: the \<^verbatim>\<open>parser\<close> folder is empty and nothing has been sent.\<close>

definition emptyWorld :: world where
  "emptyWorld = \<lparr>outputJSON = None, outputTXT = None, events = []\<rparr>"

text \<open>
  \<^verbatim>\<open>ethers.getCreateAddress\<close> at the one pair the examples use (the first deployment of
  the first development account of Hardhat), in checksum case as ethers returns it.
\<close>

definition exampleCreateAddress :: "string \<Rightarrow> nat \<Rightarrow> string" where
  "exampleCreateAddress sender n =
     (if sender = ''0xf39Fd6e51aad88F6F4ce6aB8827279cffFb92266'' \<and> n = 0
      then ''0x5FbDB2315678afecb367f032d93F642f64180aa3''
      else ''0x0000000000000000000000000000000000000000'')"

definition alwaysDelivered :: "string \<Rightarrow> bool" where
  "alwaysDelivered text = True"

definition exampleAllowedMethods :: "string list" where
  "exampleAllowedMethods = [''0x60806040'']"

definition exampleTransaction :: transaction where
  "exampleTransaction =
     \<lparr>data = ''0x608060405234801561001057600080fd5b50'', nonce = 0,
      from_address = ''0xf39Fd6e51aad88F6F4ce6aB8827279cffFb92266''\<rparr>"

text \<open>A plain transfer of ether: its input data is \<^verbatim>\<open>0x\<close>.\<close>

definition shortTransaction :: transaction where
  "shortTransaction =
     \<lparr>data = ''0x'', nonce = 0,
      from_address = ''0xf39Fd6e51aad88F6F4ce6aB8827279cffFb92266''\<rparr>"

definition exampleEntry :: entry where
  "exampleEntry =
     \<lparr>address = ''0x5fbdb2315678afecb367f032d93f642f64180aa3'', method = Some ''0x60806040''\<rparr>"

text \<open>The node knows one creating transaction, a call of a factory.\<close>

definition exampleRpc :: "string \<Rightarrow> rpc_result" where
  "exampleRpc h =
     (if h = ''0x4e3a3754410177e6937ef1f84bba68ea139e8d1a2258c5f85db9f1cd715a1bdd''
      then TxFound ''0xc9c65396000000000000000000000000a0b8'' else TxNotFound)"

text \<open>A poll response with a token and an excluded pair.\<close>

definition exampleRecords :: "item list" where
  "exampleRecords =
     [\<lparr>item_address = ''0x5FbDB2315678afecb367f032d93F642f64180aa3'', item_name = ''Token'',
       creating_transaction_hash = ''0x4e3a3754410177e6937ef1f84bba68ea139e8d1a2258c5f85db9f1cd715a1bdd''\<rparr>,
      \<lparr>item_address = ''0xB4e16d0168e52d35CaCD2c6185b44281Ec28C9Dc'', item_name = ''Uniswap V2'',
       creating_transaction_hash = ''0x8f2c61a0c4f5b1e3d2a79b6048c1e5f7a3b9d0c2e4f6081a2c3e5d7f9b1a3c5e''\<rparr>]"

text \<open>A poll response that lists the same token twice, once in each letter case.\<close>

definition duplicateRecords :: "item list" where
  "duplicateRecords =
     [\<lparr>item_address = ''0x5FbDB2315678afecb367f032d93F642f64180aa3'', item_name = ''Token'',
       creating_transaction_hash = ''0x4e3a3754410177e6937ef1f84bba68ea139e8d1a2258c5f85db9f1cd715a1bdd''\<rparr>,
      \<lparr>item_address = ''0x5fbdb2315678afecb367f032d93f642f64180aa3'', item_name = ''Token'',
       creating_transaction_hash = ''0x4e3a3754410177e6937ef1f84bba68ea139e8d1a2258c5f85db9f1cd715a1bdd''\<rparr>]"

definition polledEntry :: entry where
  "polledEntry =
     \<lparr>address = ''0x5fbdb2315678afecb367f032d93f642f64180aa3'', method = Some ''0xc9c65396''\<rparr>"

text \<open>An entry of another token, as the poller makes it when the lookup finds nothing.\<close>

definition otherEntry :: entry where
  "otherEntry =
     \<lparr>address = ''0xe7f1725e7734ce288f8367e1bb143e90bb3f0512'', method = None\<rparr>"

lemmas example_defs =
  emptyWorld_def exampleCreateAddress_def alwaysDelivered_def exampleAllowedMethods_def
  exampleTransaction_def shortTransaction_def exampleEntry_def exampleRpc_def
  exampleRecords_def duplicateRecords_def polledEntry_def otherEntry_def

lemmas eval_defs =
  handleTransaction_def listenForTransactions_def fetchAndSaveAddresses_def saveAddresses_def
  newAddresses_def uniqueNewAddresses_def extractMethod_def toLowerCase_def toLowerChar_def
  sendMessage_def writeJSON_def writeTXT_def readJSON_def readTXT_def message_def
  showMethod_def newline_def Let_def

section \<open>The effects of each step\<close>

lemma sendMessage_simps [simp]:
  "outputJSON (sendMessage t w) = outputJSON w"
  "outputTXT (sendMessage t w) = outputTXT w"
  "events (sendMessage t w) = events w @ [SendMessage t]"
  "readJSON (sendMessage t w) = readJSON w"
  "readTXT (sendMessage t w) = readTXT w"
  by (simp_all add: sendMessage_def readJSON_def readTXT_def)

lemma writeJSON_simps [simp]:
  "outputJSON (writeJSON es w) = Some es"
  "outputTXT (writeJSON es w) = outputTXT w"
  "events (writeJSON es w) = events w @ [WriteJSON es]"
  "readJSON (writeJSON es w) = es"
  "readTXT (writeJSON es w) = readTXT w"
  by (simp_all add: writeJSON_def readJSON_def readTXT_def)

lemma writeTXT_simps [simp]:
  "outputJSON (writeTXT s w) = outputJSON w"
  "outputTXT (writeTXT s w) = Some s"
  "events (writeTXT s w) = events w @ [WriteTXT s]"
  "readJSON (writeTXT s w) = readJSON w"
  "readTXT (writeTXT s w) = s"
  by (simp_all add: writeTXT_def readJSON_def readTXT_def)

lemma fold_sendMessage_simps [simp]:
  "outputJSON (fold (\<lambda>a. sendMessage (f a)) xs w) = outputJSON w"
  "outputTXT (fold (\<lambda>a. sendMessage (f a)) xs w) = outputTXT w"
  "events (fold (\<lambda>a. sendMessage (f a)) xs w) = events w @ map (\<lambda>a. SendMessage (f a)) xs"
  "readJSON (fold (\<lambda>a. sendMessage (f a)) xs w) = readJSON w"
  "readTXT (fold (\<lambda>a. sendMessage (f a)) xs w) = readTXT w"
  by (induction xs arbitrary: w; simp)+

lemma handleTransaction_unfold:
  "handleTransaction g d allowed w tx =
     (if take 10 (data tx) \<notin> set allowed then (None, w)
      else if \<not> d (toLowerCase (g (from_address tx) (nonce tx)) @ newline @ take 10 (data tx))
        then (Some SendRejected,
              sendMessage (toLowerCase (g (from_address tx) (nonce tx)) @ newline @ take 10 (data tx)) w)
      else if list_ex (\<lambda>x. address x = toLowerCase (g (from_address tx) (nonce tx))) (readJSON w)
        then (None,
              sendMessage (toLowerCase (g (from_address tx) (nonce tx)) @ newline @ take 10 (data tx)) w)
      else (None,
            writeJSON (\<lparr>address = toLowerCase (g (from_address tx) (nonce tx)),
                         method = Some (take 10 (data tx))\<rparr> # readJSON w)
              (sendMessage (toLowerCase (g (from_address tx) (nonce tx)) @ newline @ take 10 (data tx)) w)))"
  by (simp add: handleTransaction_def Let_def)

lemma saveAddresses_outputJSON:
  "outputJSON (saveAddresses new w) = Some (uniqueNewAddresses new (readJSON w) @ readJSON w)"
  by (simp add: saveAddresses_def Let_def split: option.split)

lemma saveAddresses_readJSON:
  "readJSON (saveAddresses new w) = uniqueNewAddresses new (readJSON w) @ readJSON w"
  by (simp add: readJSON_def[of "saveAddresses new w"] saveAddresses_outputJSON)

lemma saveAddresses_readTXT:
  "readTXT (saveAddresses new w) =
     (if uniqueNewAddresses new (readJSON w) = [] then []
      else join (map address (uniqueNewAddresses new (readJSON w))) newline @ newline) @ readTXT w"
  by (simp add: saveAddresses_def Let_def readTXT_def[of w] split: option.split)

lemma saveAddresses_outputTXT:
  "outputTXT (saveAddresses new w) =
     (if uniqueNewAddresses new (readJSON w) = [] then outputTXT w
      else Some (join (map address (uniqueNewAddresses new (readJSON w))) newline @ newline @ readTXT w))"
  by (simp add: saveAddresses_def Let_def readTXT_def[of w] split: option.split)

lemma saveAddresses_events:
  "events (saveAddresses new w) =
     events w @ map (\<lambda>a. SendMessage (message a)) (uniqueNewAddresses new (readJSON w))
       @ WriteJSON (uniqueNewAddresses new (readJSON w) @ readJSON w)
       # (if uniqueNewAddresses new (readJSON w) = [] then []
          else [WriteTXT (readTXT (saveAddresses new w))])"
  by (simp add: saveAddresses_def Let_def readTXT_def[of w] split: option.split)

lemma uniqueNewAddresses_Nil [simp]: "uniqueNewAddresses new [] = new"
  by (simp add: uniqueNewAddresses_def)

lemma list_ex_address: "list_ex (\<lambda>x. address x = a) es = (a \<in> address ` set es)"
  by (auto simp: list_ex_iff)

lemma uniqueNewAddresses_unfold:
  "uniqueNewAddresses new es = filter (\<lambda>e. address e \<notin> address ` set es) new"
  by (simp add: uniqueNewAddresses_def list_ex_address)

lemma newAddresses_unfold:
  "newAddresses rpc items =
     map (\<lambda>i. \<lparr>address = toLowerCase (item_address i),
               method = (case rpc (creating_transaction_hash i) of
                           TxFound input \<Rightarrow> Some (take 10 input)
                         | TxNotFound \<Rightarrow> None
                         | TxFailed \<Rightarrow> None)\<rparr>)
       (filter (\<lambda>i. item_address i \<noteq> [] \<and> item_name i \<noteq> ''Uniswap V2'') items)"
  by (simp add: newAddresses_def extractMethod_def)

lemma sentMessages_append [simp]: "sentMessages (xs @ ys) = sentMessages xs @ sentMessages ys"
  by (induction xs rule: sentMessages.induct) simp_all

lemma sentMessages_map_Send [simp]: "sentMessages (map (\<lambda>a. SendMessage (f a)) xs) = map f xs"
  by (induction xs) simp_all

lemma uniqueNewAddresses_again:
  assumes "map address new' = map address new"
  shows "uniqueNewAddresses new' (uniqueNewAddresses new ex @ ex) = []"
proof -
  have "list_ex (\<lambda>x. address x = address a) (uniqueNewAddresses new ex @ ex)"
    if "a \<in> set new'" for a
  proof -
    from that have "address a \<in> set (map address new')" by simp
    with assms obtain b where b: "b \<in> set new" "address b = address a" by auto
    show ?thesis
    proof (cases "list_ex (\<lambda>x. address x = address b) ex")
      case True
      with b show ?thesis by (auto simp: list_ex_iff)
    next
      case False
      with b have "b \<in> set (uniqueNewAddresses new ex)"
        by (simp add: uniqueNewAddresses_def)
      with b show ?thesis by (auto simp: list_ex_iff)
    qed
  qed
  then show ?thesis
    by (simp add: uniqueNewAddresses_def filter_empty_conv)
qed

lemma newAddresses_addresses:
  "map address (newAddresses rpc' items) = map address (newAddresses rpc items)"
  by (simp add: newAddresses_def)

section \<open>Polling the same response again\<close>

text \<open>
  C7. When the poller has processed a response and then processes the same response
  again, on the files the first run left, the second run leaves the JSON file and the TXT
  file with the same content and sends no message: its only effect is that it writes the
  JSON file again with the content it already had (when the response held an array),
  whatever the method lookups of either run returned.
\<close>

theorem second_poll_is_noop:
  "outputJSON (fetchAndSaveAddresses rpc' resp (fetchAndSaveAddresses rpc resp w))
     = outputJSON (fetchAndSaveAddresses rpc resp w)
   \<and> outputTXT (fetchAndSaveAddresses rpc' resp (fetchAndSaveAddresses rpc resp w))
     = outputTXT (fetchAndSaveAddresses rpc resp w)
   \<and> events (fetchAndSaveAddresses rpc' resp (fetchAndSaveAddresses rpc resp w))
     = events (fetchAndSaveAddresses rpc resp w)
       @ (case resp of Records items \<Rightarrow> [WriteJSON (readJSON (fetchAndSaveAddresses rpc resp w))]
          | _ \<Rightarrow> [])"
proof (cases resp)
  case (Records items)
  have u: "uniqueNewAddresses (newAddresses rpc' items)
             (uniqueNewAddresses (newAddresses rpc items) (readJSON w) @ readJSON w) = []"
    by (rule uniqueNewAddresses_again) (rule newAddresses_addresses)
  show ?thesis
    by (simp add: Records fetchAndSaveAddresses_def saveAddresses_outputJSON
        saveAddresses_outputTXT saveAddresses_events saveAddresses_readJSON u)
qed (simp_all add: fetchAndSaveAddresses_def)

theorem second_poll_is_noop_witness:
  "outputJSON (fetchAndSaveAddresses exampleRpc (Records exampleRecords)
       (fetchAndSaveAddresses exampleRpc (Records exampleRecords) emptyWorld)) = Some [polledEntry]
   \<and> outputTXT (fetchAndSaveAddresses exampleRpc (Records exampleRecords)
       (fetchAndSaveAddresses exampleRpc (Records exampleRecords) emptyWorld))
     = Some (''0x5fbdb2315678afecb367f032d93f642f64180aa3'' @ newline)
   \<and> events (fetchAndSaveAddresses exampleRpc (Records exampleRecords)
       (fetchAndSaveAddresses exampleRpc (Records exampleRecords) emptyWorld))
     = [SendMessage (message polledEntry), WriteJSON [polledEntry],
        WriteTXT (''0x5fbdb2315678afecb367f032d93f642f64180aa3'' @ newline),
        WriteJSON [polledEntry]]"
proof -
  have first: "fetchAndSaveAddresses exampleRpc (Records exampleRecords) emptyWorld =
      \<lparr>outputJSON = Some [polledEntry],
       outputTXT = Some (''0x5fbdb2315678afecb367f032d93f642f64180aa3'' @ newline),
       events = [SendMessage (message polledEntry), WriteJSON [polledEntry],
                 WriteTXT (''0x5fbdb2315678afecb367f032d93f642f64180aa3'' @ newline)]\<rparr>"
    by (simp add: example_defs eval_defs)
  show ?thesis
    using second_poll_is_noop [of exampleRpc "Records exampleRecords" exampleRpc emptyWorld]
    by (simp add: first readJSON_def)
qed

section \<open>The registry only grows at the front\<close>

lemma handleTransaction_readTXT:
  "readTXT (snd (handleTransaction g d allowed w tx)) = readTXT w"
  by (simp add: handleTransaction_unfold)

lemma handleTransaction_readJSON:
  "readJSON (snd (handleTransaction g d allowed w tx)) =
     (if take 10 (data tx) \<in> set allowed
         \<and> d (toLowerCase (g (from_address tx) (nonce tx)) @ newline @ take 10 (data tx))
         \<and> \<not> list_ex (\<lambda>x. address x = toLowerCase (g (from_address tx) (nonce tx))) (readJSON w)
      then [\<lparr>address = toLowerCase (g (from_address tx) (nonce tx)),
              method = Some (take 10 (data tx))\<rparr>]
      else []) @ readJSON w"
  by (simp add: handleTransaction_unfold)

lemma handleTransactions_suffix:
  "suffix (readJSON w) (readJSON (snd (handleTransactions g d allowed w txs)))
   \<and> readTXT (snd (handleTransactions g d allowed w txs)) = readTXT w"
proof (induction txs arbitrary: w)
  case Nil
  show ?case by simp
next
  case (Cons t txs)
  show ?case
  proof (cases t)
    case None
    with Cons show ?thesis by simp
  next
    case (Some tx)
    obtain err w' where h: "handleTransaction g d allowed w tx = (err, w')"
      by (cases "handleTransaction g d allowed w tx")
    have j: "suffix (readJSON w) (readJSON w')"
      using handleTransaction_readJSON [of g d allowed w tx] h
      by (auto simp: suffix_def)
    have t: "readTXT w' = readTXT w"
      using handleTransaction_readTXT [of g d allowed w tx] h by simp
    show ?thesis
    proof (cases err)
      case None
      with Some h j t Cons.IH [of w'] show ?thesis
        by (auto intro: suffix_order.trans)
    next
      case (Some e)
      with \<open>t = Some tx\<close> h j t show ?thesis by simp
    qed
  qed
qed

text \<open>
  C8. An admission leaves every entry that was there unchanged and in place, and puts
  the new one in front. The listener's step on a transaction gives the JSON list it found
  with at most one entry in front (the one of this transaction, when its selector is
  allowed, the message was delivered and the address is new) and leaves the TXT file as
  it is; the poller's save gives the JSON list it found with the unique new entries in
  front, and the TXT content it found with their addresses, one per line, in front. So
  after a whole block, and after a whole poll, the old JSON list is a suffix of the new one
  and the old TXT content a suffix of the new content.
\<close>

theorem admission_only_prepends:
  "readJSON (snd (handleTransaction g d allowed w tx)) =
     (if take 10 (data tx) \<in> set allowed
         \<and> d (toLowerCase (g (from_address tx) (nonce tx)) @ newline @ take 10 (data tx))
         \<and> \<not> list_ex (\<lambda>x. address x = toLowerCase (g (from_address tx) (nonce tx))) (readJSON w)
      then [\<lparr>address = toLowerCase (g (from_address tx) (nonce tx)),
              method = Some (take 10 (data tx))\<rparr>]
      else []) @ readJSON w
   \<and> readTXT (snd (handleTransaction g d allowed w tx)) = readTXT w
   \<and> suffix (readJSON w) (readJSON (snd (listenForTransactions g d allowed w block)))
   \<and> readTXT (snd (listenForTransactions g d allowed w block)) = readTXT w
   \<and> readJSON (saveAddresses new w) = uniqueNewAddresses new (readJSON w) @ readJSON w
   \<and> readTXT (saveAddresses new w) =
       (if uniqueNewAddresses new (readJSON w) = [] then []
        else join (map address (uniqueNewAddresses new (readJSON w))) newline @ newline)
       @ readTXT w
   \<and> suffix (readJSON w) (readJSON (fetchAndSaveAddresses rpc resp w))
   \<and> suffix (readTXT w) (readTXT (fetchAndSaveAddresses rpc resp w))"
proof -
  have l: "suffix (readJSON w) (readJSON (snd (listenForTransactions g d allowed w block)))
      \<and> readTXT (snd (listenForTransactions g d allowed w block)) = readTXT w"
    using handleTransactions_suffix [of w g d allowed]
    by (cases block) (simp_all add: listenForTransactions_def)
  have p: "suffix (readJSON w) (readJSON (fetchAndSaveAddresses rpc resp w))
      \<and> suffix (readTXT w) (readTXT (fetchAndSaveAddresses rpc resp w))"
    by (cases resp)
      (simp_all add: fetchAndSaveAddresses_def saveAddresses_readJSON saveAddresses_readTXT
        suffix_def)
  show ?thesis
    using l p
    by (simp add: handleTransaction_readJSON handleTransaction_readTXT saveAddresses_readJSON
        saveAddresses_readTXT)
qed

theorem admission_only_prepends_witness:
  "readJSON (snd (handleTransaction exampleCreateAddress alwaysDelivered exampleAllowedMethods
       \<lparr>outputJSON = Some [polledEntry], outputTXT = Some ''x'', events = []\<rparr> exampleTransaction))
     = [polledEntry]
   \<and> readJSON (snd (handleTransaction exampleCreateAddress alwaysDelivered exampleAllowedMethods
       emptyWorld exampleTransaction)) = [exampleEntry]
   \<and> readJSON (saveAddresses [polledEntry]
       \<lparr>outputJSON = Some [\<lparr>address = ''0xb4e16d0168e52d35cacd2c6185b44281ec28c9dc'', method = None\<rparr>],
        outputTXT = Some (''0xb4e16d0168e52d35cacd2c6185b44281ec28c9dc'' @ newline), events = []\<rparr>)
     = [polledEntry, \<lparr>address = ''0xb4e16d0168e52d35cacd2c6185b44281ec28c9dc'', method = None\<rparr>]
   \<and> readTXT (saveAddresses [polledEntry]
       \<lparr>outputJSON = Some [\<lparr>address = ''0xb4e16d0168e52d35cacd2c6185b44281ec28c9dc'', method = None\<rparr>],
        outputTXT = Some (''0xb4e16d0168e52d35cacd2c6185b44281ec28c9dc'' @ newline), events = []\<rparr>)
     = ''0x5fbdb2315678afecb367f032d93f642f64180aa3'' @ newline
       @ ''0xb4e16d0168e52d35cacd2c6185b44281ec28c9dc'' @ newline"
  using admission_only_prepends [of exampleCreateAddress alwaysDelivered exampleAllowedMethods
      "\<lparr>outputJSON = Some [polledEntry], outputTXT = Some ''x'', events = []\<rparr>"
      exampleTransaction None "[]" exampleRpc RequestFailed]
    admission_only_prepends [of exampleCreateAddress alwaysDelivered exampleAllowedMethods
      emptyWorld exampleTransaction None "[]" exampleRpc RequestFailed]
    admission_only_prepends [of exampleCreateAddress alwaysDelivered exampleAllowedMethods
      "\<lparr>outputJSON = Some [\<lparr>address = ''0xb4e16d0168e52d35cacd2c6185b44281ec28c9dc'', method = None\<rparr>],
        outputTXT = Some (''0xb4e16d0168e52d35cacd2c6185b44281ec28c9dc'' @ newline), events = []\<rparr>"
      exampleTransaction None "[polledEntry]" exampleRpc RequestFailed]
  by (simp add: example_defs eval_defs)

section \<open>Input data shorter than a selector\<close>

lemma short_not_member:
  assumes "length s < 10" and "list_all (\<lambda>m. length m = 10) allowed"
  shows "s \<notin> set allowed"
proof
  assume "s \<in> set allowed"
  with assms(2) have "length s = 10" by (simp add: list_all_iff)
  with assms(1) show False by simp
qed

text \<open>
  C9. For a transaction whose input data has fewer than ten characters (the prefix
  \<^verbatim>\<open>0x\<close> and fewer than four bytes), when every allowed method is a full selector of
  ten characters, the selector the listener computes is not among the allowed methods,
  and the step ends without an exception and without any effect.
\<close>

theorem short_input_never_matches:
  assumes "length (data tx) < 10"
    and "list_all (\<lambda>m. length m = 10) allowedMethods"
  shows "take 10 (data tx) \<notin> set allowedMethods
         \<and> handleTransaction g d allowedMethods w tx = (None, w)"
proof -
  from assms(1) have "length (take 10 (data tx)) < 10" by simp
  then have "take 10 (data tx) \<notin> set allowedMethods"
    using assms(2) by (rule short_not_member)
  then show ?thesis by (simp add: handleTransaction_unfold)
qed

theorem short_input_never_matches_witness:
  "length (data shortTransaction) < 10
   \<and> list_all (\<lambda>m. length m = 10) exampleAllowedMethods
   \<and> take 10 (data shortTransaction) \<notin> set exampleAllowedMethods
   \<and> handleTransaction exampleCreateAddress alwaysDelivered exampleAllowedMethods emptyWorld
        shortTransaction = (None, emptyWorld)"
proof -
  have a: "length (data shortTransaction) < 10"
    by (simp add: shortTransaction_def)
  have b: "list_all (\<lambda>m. length m = 10) exampleAllowedMethods"
    by (simp add: exampleAllowedMethods_def)
  show ?thesis
    using a b short_input_never_matches [OF a b, of exampleCreateAddress alwaysDelivered emptyWorld]
    by simp
qed

section \<open>A registry file that does not exist yet\<close>

text \<open>
  C10. When the JSON file does not exist, both handlers read the empty list. The
  listener's step then never finds the address present: for an allowed selector and a
  delivered message it writes the file with the one new entry, and its only exception is
  the rejected message. The poller takes every new entry as unique and writes the file
  with exactly the new entries. No branch is an error of the missing file.
\<close>

theorem missing_registry_is_empty:
  assumes "outputJSON w = None"
  shows "readJSON w = []
    \<and> handleTransaction g d allowed w tx =
        (if take 10 (data tx) \<notin> set allowed then (None, w)
         else if \<not> d (toLowerCase (g (from_address tx) (nonce tx)) @ newline @ take 10 (data tx))
           then (Some SendRejected,
                 sendMessage (toLowerCase (g (from_address tx) (nonce tx)) @ newline
                    @ take 10 (data tx)) w)
         else (None,
               writeJSON [\<lparr>address = toLowerCase (g (from_address tx) (nonce tx)),
                           method = Some (take 10 (data tx))\<rparr>]
                 (sendMessage (toLowerCase (g (from_address tx) (nonce tx)) @ newline
                    @ take 10 (data tx)) w)))
    \<and> uniqueNewAddresses new (readJSON w) = new
    \<and> outputJSON (saveAddresses new w) = Some new"
proof -
  from assms have e: "readJSON w = []" by (simp add: readJSON_def)
  then show ?thesis
    by (simp add: handleTransaction_unfold saveAddresses_outputJSON)
qed

theorem missing_registry_is_empty_witness:
  "outputJSON emptyWorld = None
   \<and> readJSON emptyWorld = []
   \<and> handleTransaction exampleCreateAddress alwaysDelivered exampleAllowedMethods emptyWorld
        exampleTransaction
      = (None, \<lparr>outputJSON = Some [exampleEntry], outputTXT = None,
                 events = [SendMessage (message exampleEntry), WriteJSON [exampleEntry]]\<rparr>)
   \<and> outputJSON (saveAddresses [polledEntry] emptyWorld) = Some [polledEntry]"
proof -
  have a: "outputJSON emptyWorld = None"
    by (simp add: emptyWorld_def)
  show ?thesis
    using a missing_registry_is_empty [OF a, of exampleCreateAddress alwaysDelivered
        exampleAllowedMethods exampleTransaction "[polledEntry]"]
    by (simp add: example_defs eval_defs)
qed

section \<open>The selector filter\<close>

lemma handleTransaction_methods:
  assumes "e \<in> set (readJSON (snd (handleTransaction g d allowed w tx)))"
  shows "e \<in> set (readJSON w) \<or> method e \<in> Some ` set allowed"
  using assms by (auto simp: handleTransaction_readJSON split: if_splits)

lemma handleTransactions_methods:
  assumes "e \<in> set (readJSON (snd (handleTransactions g d allowed w txs)))"
  shows "e \<in> set (readJSON w) \<or> method e \<in> Some ` set allowed"
  using assms
proof (induction txs arbitrary: w)
  case Nil
  then show ?case by simp
next
  case (Cons t txs)
  show ?case
  proof (cases t)
    case None
    with Cons show ?thesis by simp
  next
    case (Some tx)
    obtain err w' where h: "handleTransaction g d allowed w tx = (err, w')"
      by (cases "handleTransaction g d allowed w tx")
    show ?thesis
    proof (cases err)
      case None
      with Some h Cons.prems
      have "e \<in> set (readJSON (snd (handleTransactions g d allowed w' txs)))"
        by simp
      then have "e \<in> set (readJSON w') \<or> method e \<in> Some ` set allowed"
        by (rule Cons.IH)
      with handleTransaction_methods [of e g d allowed w tx] h show ?thesis
        by auto
    next
      case (Some x)
      with \<open>t = Some tx\<close> h Cons.prems have "e \<in> set (readJSON w')"
        by simp
      with handleTransaction_methods [of e g d allowed w tx] h show ?thesis
        by auto
    qed
  qed
qed

text \<open>
  C5, as amended. The selector filter is the listener's alone. A transaction whose
  selector is not among the allowed methods read for its block goes through the listener
  without any effect: no message, no write, no exception; after a whole block, every
  entry of the JSON file was there before or carries an allowed selector. The poller
  has no selector filter: after a poll the JSON file holds, in front of what it held, one
  entry for each record of the response with a non-empty address, a label other than
  \<^verbatim>\<open>Uniswap V2\<close> and an address (in lower case) that was not there, with the first ten
  characters of the creating transaction's input as its method, or \<^verbatim>\<open>null\<close> when the
  lookup found nothing or failed. So the address of every record with a non-empty address
  and another label is in the file afterwards, whatever its selector.
\<close>

theorem selector_filter_on_listener_only:
  "(take 10 (data tx) \<notin> set allowed \<longrightarrow> handleTransaction g d allowed w tx = (None, w))
   \<and> (\<forall>e \<in> set (readJSON (snd (listenForTransactions g d allowed w block))).
         e \<in> set (readJSON w) \<or> method e \<in> Some ` set allowed)
   \<and> readJSON (fetchAndSaveAddresses rpc (Records items) w) =
       filter (\<lambda>e. address e \<notin> address ` set (readJSON w))
         (map (\<lambda>i. \<lparr>address = toLowerCase (item_address i),
                    method = (case rpc (creating_transaction_hash i) of
                                TxFound input \<Rightarrow> Some (take 10 input)
                              | TxNotFound \<Rightarrow> None
                              | TxFailed \<Rightarrow> None)\<rparr>)
            (filter (\<lambda>i. item_address i \<noteq> [] \<and> item_name i \<noteq> ''Uniswap V2'') items))
       @ readJSON w
   \<and> (\<forall>i \<in> set items. item_address i \<noteq> [] \<and> item_name i \<noteq> ''Uniswap V2'' \<longrightarrow>
         toLowerCase (item_address i)
           \<in> address ` set (readJSON (fetchAndSaveAddresses rpc (Records items) w)))"
proof -
  have l: "e \<in> set (readJSON w) \<or> method e \<in> Some ` set allowed"
    if "e \<in> set (readJSON (snd (listenForTransactions g d allowed w block)))" for e
    using that handleTransactions_methods [of e g d allowed w]
    by (cases block) (simp_all add: listenForTransactions_def)
  have p: "readJSON (fetchAndSaveAddresses rpc (Records items) w) =
       filter (\<lambda>e. address e \<notin> address ` set (readJSON w))
         (map (\<lambda>i. \<lparr>address = toLowerCase (item_address i),
                    method = (case rpc (creating_transaction_hash i) of
                                TxFound input \<Rightarrow> Some (take 10 input)
                              | TxNotFound \<Rightarrow> None
                              | TxFailed \<Rightarrow> None)\<rparr>)
            (filter (\<lambda>i. item_address i \<noteq> [] \<and> item_name i \<noteq> ''Uniswap V2'') items))
       @ readJSON w"
    by (simp add: fetchAndSaveAddresses_def saveAddresses_readJSON uniqueNewAddresses_unfold
        newAddresses_unfold)
  have a: "toLowerCase (item_address i)
      \<in> address ` set (readJSON (fetchAndSaveAddresses rpc (Records items) w))"
    if "i \<in> set items" and "item_address i \<noteq> []" and "item_name i \<noteq> ''Uniswap V2''" for i
  proof (cases "toLowerCase (item_address i) \<in> address ` set (readJSON w)")
    case True
    then show ?thesis by (simp add: p image_Un)
  next
    case False
    let ?e = "\<lparr>address = toLowerCase (item_address i),
               method = (case rpc (creating_transaction_hash i) of
                           TxFound input \<Rightarrow> Some (take 10 input)
                         | TxNotFound \<Rightarrow> None
                         | TxFailed \<Rightarrow> None)\<rparr>"
    from that False
    have "?e \<in> set (readJSON (fetchAndSaveAddresses rpc (Records items) w))"
      unfolding p by auto
    then have "address ?e \<in> address ` set (readJSON (fetchAndSaveAddresses rpc (Records items) w))"
      by (rule imageI)
    then show ?thesis by simp
  qed
  show ?thesis
    using l p a by (simp add: handleTransaction_unfold)
qed

theorem selector_filter_on_listener_only_witness:
  "take 10 (data exampleTransaction) \<notin> set [''0xc9c65396'']
   \<and> handleTransaction exampleCreateAddress alwaysDelivered [''0xc9c65396''] emptyWorld
        exampleTransaction = (None, emptyWorld)
   \<and> readJSON (snd (listenForTransactions exampleCreateAddress alwaysDelivered [''0xc9c65396'']
        emptyWorld (Some [Some exampleTransaction, None]))) = []
   \<and> readJSON (fetchAndSaveAddresses exampleRpc (Records exampleRecords) emptyWorld)
      = [polledEntry]
   \<and> ''0x5fbdb2315678afecb367f032d93f642f64180aa3''
      \<in> address ` set (readJSON (fetchAndSaveAddresses exampleRpc (Records exampleRecords)
            emptyWorld))"
proof -
  have a: "take 10 (data exampleTransaction) \<notin> set [''0xc9c65396'']"
    by (simp add: exampleTransaction_def)
  show ?thesis
    using a selector_filter_on_listener_only [of exampleTransaction "[''0xc9c65396'']"
        exampleCreateAddress alwaysDelivered emptyWorld "Some [Some exampleTransaction, None]"
        exampleRpc exampleRecords]
    by (simp add: example_defs eval_defs)
qed

text \<open>
  C5 as stated fails on the poller, which never reads \<^verbatim>\<open>methods.json\<close>: with
  \<^verbatim>\<open>0x60806040\<close> as the only allowed method, a polled record whose creating transaction
  calls \<^verbatim>\<open>0xc9c65396\<close> is admitted.
\<close>

theorem poller_admits_unlisted_selector:
  "readJSON (fetchAndSaveAddresses exampleRpc (Records exampleRecords) emptyWorld) = [polledEntry]
   \<and> method polledEntry = Some ''0xc9c65396''
   \<and> ''0xc9c65396'' \<notin> set exampleAllowedMethods"
  by (simp add: example_defs eval_defs)

section \<open>The order of message and write\<close>

lemma committedAfter_append:
  "committedAfter c (xs @ ys) = committedAfter (committedAfter c xs) ys"
  by (induction c xs rule: committedAfter.induct) simp_all

lemma commitsAfterSend_append:
  "commitsAfterSend c s (xs @ ys) =
     (commitsAfterSend c s xs
      \<and> commitsAfterSend (committedAfter c xs) (rev (sentMessages xs) @ s) ys)"
  by (induction c s xs rule: commitsAfterSend.induct) simp_all

lemma commitsAfterSend_sends:
  "commitsAfterSend c s (map (\<lambda>a. SendMessage (f a)) xs @ evs)
     = commitsAfterSend c (rev (map f xs) @ s) evs"
  by (induction xs arbitrary: s) simp_all

lemma handleTransaction_commits:
  "\<exists>evs. events (snd (handleTransaction g d allowed w tx)) = events w @ evs
     \<and> commitsAfterSend (readJSON w) s evs
     \<and> committedAfter (readJSON w) evs = readJSON (snd (handleTransaction g d allowed w tx))"
  by (auto simp: handleTransaction_unfold message_def showMethod_def list_all_iff)

lemma handleTransactions_commits:
  "\<exists>evs. events (snd (handleTransactions g d allowed w txs)) = events w @ evs
     \<and> commitsAfterSend (readJSON w) s evs
     \<and> committedAfter (readJSON w) evs = readJSON (snd (handleTransactions g d allowed w txs))"
proof (induction txs arbitrary: w s)
  case Nil
  show ?case by simp
next
  case (Cons t txs)
  show ?case
  proof (cases t)
    case None
    with Cons [of w s] show ?thesis by simp
  next
    case (Some tx)
    obtain err w1 where h: "handleTransaction g d allowed w tx = (err, w1)"
      by (cases "handleTransaction g d allowed w tx")
    from handleTransaction_commits [of g d allowed w tx s] h
    obtain evs1 where e1: "events w1 = events w @ evs1"
      and c1: "commitsAfterSend (readJSON w) s evs1"
      and r1: "committedAfter (readJSON w) evs1 = readJSON w1"
      by auto
    show ?thesis
    proof (cases err)
      case (Some e)
      with \<open>t = Some tx\<close> h e1 c1 r1 show ?thesis by simp
    next
      case None
      from Cons [of w1 "rev (sentMessages evs1) @ s"]
      obtain evs2 where e2: "events (snd (handleTransactions g d allowed w1 txs)) = events w1 @ evs2"
        and c2: "commitsAfterSend (readJSON w1) (rev (sentMessages evs1) @ s) evs2"
        and r2: "committedAfter (readJSON w1) evs2
                 = readJSON (snd (handleTransactions g d allowed w1 txs))"
        by auto
      have "events (snd (handleTransactions g d allowed w (t # txs))) = events w @ (evs1 @ evs2)"
        using None Some h e1 e2 by simp
      moreover have "commitsAfterSend (readJSON w) s (evs1 @ evs2)"
        using c1 c2 r1 by (simp add: commitsAfterSend_append)
      moreover have "committedAfter (readJSON w) (evs1 @ evs2)
          = readJSON (snd (handleTransactions g d allowed w (t # txs)))"
        using None Some h r1 r2 by (simp add: committedAfter_append)
      ultimately show ?thesis by blast
    qed
  qed
qed

lemma saveAddresses_commits:
  "\<exists>evs. events (saveAddresses new w) = events w @ evs
     \<and> commitsAfterSend (readJSON w) [] evs
     \<and> set (sentMessages evs) \<subseteq> message ` set (readJSON (saveAddresses new w))"
proof -
  let ?u = "uniqueNewAddresses new (readJSON w)"
  let ?evs = "map (\<lambda>a. SendMessage (message a)) ?u @ WriteJSON (?u @ readJSON w)
       # (if ?u = [] then [] else [WriteTXT (readTXT (saveAddresses new w))])"
  have "events (saveAddresses new w) = events w @ ?evs"
    by (simp add: saveAddresses_events)
  moreover have "commitsAfterSend (readJSON w) [] ?evs"
    by (auto simp: commitsAfterSend_sends list_all_iff)
  moreover have "set (sentMessages ?evs) \<subseteq> message ` set (readJSON (saveAddresses new w))"
    by (auto simp: saveAddresses_readJSON)
  ultimately show ?thesis by blast
qed

text \<open>
  C3, as amended. On both paths the message for an entry is sent before the write that
  commits the entry, not after it. In every run of the block handler and in every run of
  the poller, whatever happens to the messages, the effects of the run come after those
  that were there, and every entry that a write of the run adds to the JSON list had its
  message sent earlier in the run. For the poller, no message stands for an entry that is
  not in the file at the end of the run: it sends one message for each unique new entry,
  in order, then writes the merged list, then (when there is a new entry) the TXT file,
  and no outcome of a delivery changes that. For the listener, a delivered message for an
  allowed transaction whose address is new is followed at once by the write of the list
  with its entry in front.
\<close>

theorem commit_follows_send:
  "(\<exists>evs. events (snd (listenForTransactions g d allowed w block)) = events w @ evs
       \<and> commitsAfterSend (readJSON w) [] evs)
   \<and> (\<exists>evs. events (fetchAndSaveAddresses rpc resp w) = events w @ evs
       \<and> commitsAfterSend (readJSON w) [] evs
       \<and> set (sentMessages evs) \<subseteq> message ` set (readJSON (fetchAndSaveAddresses rpc resp w)))
   \<and> events (saveAddresses new w) =
       events w @ map (\<lambda>a. SendMessage (message a)) (uniqueNewAddresses new (readJSON w))
       @ WriteJSON (uniqueNewAddresses new (readJSON w) @ readJSON w)
       # (if uniqueNewAddresses new (readJSON w) = [] then []
          else [WriteTXT (readTXT (saveAddresses new w))])
   \<and> (take 10 (data tx) \<in> set allowed
       \<and> d (toLowerCase (g (from_address tx) (nonce tx)) @ newline @ take 10 (data tx))
       \<and> toLowerCase (g (from_address tx) (nonce tx)) \<notin> address ` set (readJSON w) \<longrightarrow>
      handleTransaction g d allowed w tx =
        (None,
         writeJSON (\<lparr>address = toLowerCase (g (from_address tx) (nonce tx)),
                     method = Some (take 10 (data tx))\<rparr> # readJSON w)
           (sendMessage (toLowerCase (g (from_address tx) (nonce tx)) @ newline
              @ take 10 (data tx)) w)))"
proof -
  have l: "\<exists>evs. events (snd (listenForTransactions g d allowed w block)) = events w @ evs
       \<and> commitsAfterSend (readJSON w) [] evs"
  proof (cases block)
    case None
    then show ?thesis by (simp add: listenForTransactions_def)
  next
    case (Some txs)
    with handleTransactions_commits [of g d allowed w txs "[]"] show ?thesis
      by (auto simp: listenForTransactions_def)
  qed
  have p: "\<exists>evs. events (fetchAndSaveAddresses rpc resp w) = events w @ evs
       \<and> commitsAfterSend (readJSON w) [] evs
       \<and> set (sentMessages evs) \<subseteq> message ` set (readJSON (fetchAndSaveAddresses rpc resp w))"
  proof (cases resp)
    case (Records items)
    with saveAddresses_commits [of "newAddresses rpc items" w] show ?thesis
      by (simp add: fetchAndSaveAddresses_def)
  qed (simp_all add: fetchAndSaveAddresses_def)
  have t: "handleTransaction g d allowed w tx =
        (None,
         writeJSON (\<lparr>address = toLowerCase (g (from_address tx) (nonce tx)),
                     method = Some (take 10 (data tx))\<rparr> # readJSON w)
           (sendMessage (toLowerCase (g (from_address tx) (nonce tx)) @ newline
              @ take 10 (data tx)) w))"
    if "take 10 (data tx) \<in> set allowed"
      and "d (toLowerCase (g (from_address tx) (nonce tx)) @ newline @ take 10 (data tx))"
      and "toLowerCase (g (from_address tx) (nonce tx)) \<notin> address ` set (readJSON w)"
  proof -
    from that(3)
    have "\<not> list_ex (\<lambda>x. address x = toLowerCase (g (from_address tx) (nonce tx))) (readJSON w)"
      by (simp add: list_ex_address)
    with that(1,2) show ?thesis
      by (simp add: handleTransaction_unfold)
  qed
  from l p t show ?thesis
    by (simp add: saveAddresses_events)
qed

theorem commit_follows_send_witness:
  "events (snd (listenForTransactions exampleCreateAddress alwaysDelivered exampleAllowedMethods
       emptyWorld (Some [Some exampleTransaction])))
     = [SendMessage (message exampleEntry), WriteJSON [exampleEntry]]
   \<and> commitsAfterSend (readJSON emptyWorld) []
       [SendMessage (message exampleEntry), WriteJSON [exampleEntry]]
   \<and> events (fetchAndSaveAddresses exampleRpc (Records exampleRecords) emptyWorld)
     = [SendMessage (message polledEntry), WriteJSON [polledEntry],
        WriteTXT (''0x5fbdb2315678afecb367f032d93f642f64180aa3'' @ newline)]
   \<and> commitsAfterSend (readJSON emptyWorld) []
       [SendMessage (message polledEntry), WriteJSON [polledEntry],
        WriteTXT (''0x5fbdb2315678afecb367f032d93f642f64180aa3'' @ newline)]
   \<and> readJSON (fetchAndSaveAddresses exampleRpc (Records exampleRecords) emptyWorld)
     = [polledEntry]
   \<and> handleTransaction exampleCreateAddress alwaysDelivered exampleAllowedMethods emptyWorld
        exampleTransaction
     = (None, \<lparr>outputJSON = Some [exampleEntry], outputTXT = None,
               events = [SendMessage (message exampleEntry), WriteJSON [exampleEntry]]\<rparr>)"
proof -
  have l: "events (snd (listenForTransactions exampleCreateAddress alwaysDelivered
       exampleAllowedMethods emptyWorld (Some [Some exampleTransaction])))
     = [SendMessage (message exampleEntry), WriteJSON [exampleEntry]]"
    by (simp add: example_defs eval_defs)
  have p: "fetchAndSaveAddresses exampleRpc (Records exampleRecords) emptyWorld
     = \<lparr>outputJSON = Some [polledEntry],
        outputTXT = Some (''0x5fbdb2315678afecb367f032d93f642f64180aa3'' @ newline),
        events = [SendMessage (message polledEntry), WriteJSON [polledEntry],
                  WriteTXT (''0x5fbdb2315678afecb367f032d93f642f64180aa3'' @ newline)]\<rparr>"
    by (simp add: example_defs eval_defs)
  have e: "events emptyWorld = []" and r: "readJSON emptyWorld = []"
    by (simp_all add: emptyWorld_def readJSON_def)
  have rj: "readJSON (fetchAndSaveAddresses exampleRpc (Records exampleRecords) emptyWorld)
     = [polledEntry]"
    by (simp add: p readJSON_def)
  have n: "take 10 (data exampleTransaction) \<in> set exampleAllowedMethods
     \<and> alwaysDelivered (toLowerCase (exampleCreateAddress (from_address exampleTransaction)
          (nonce exampleTransaction)) @ newline @ take 10 (data exampleTransaction))
     \<and> toLowerCase (exampleCreateAddress (from_address exampleTransaction)
          (nonce exampleTransaction)) \<notin> address ` set (readJSON emptyWorld)"
    by (simp add: example_defs readJSON_def)
  have h: "writeJSON [\<lparr>address = toLowerCase (exampleCreateAddress
            (from_address exampleTransaction) (nonce exampleTransaction)),
          method = Some (take 10 (data exampleTransaction))\<rparr>]
        (sendMessage (toLowerCase (exampleCreateAddress (from_address exampleTransaction)
            (nonce exampleTransaction)) @ newline @ take 10 (data exampleTransaction)) emptyWorld)
     = \<lparr>outputJSON = Some [exampleEntry], outputTXT = None,
        events = [SendMessage (message exampleEntry), WriteJSON [exampleEntry]]\<rparr>"
    by (simp add: example_defs eval_defs)
  show ?thesis
    using n commit_follows_send [of exampleCreateAddress alwaysDelivered exampleAllowedMethods
        emptyWorld "Some [Some exampleTransaction]" exampleRpc "Records exampleRecords"
        "[polledEntry]" exampleTransaction]
    by (simp add: l e r h rj) (simp add: p)
qed

text \<open>
  What the amended C3 leaves out: when the promise of \<^verbatim>\<open>bot.sendMessage\<close> is rejected,
  the listener's step ends in the exception, after the message and before any write.
\<close>

lemma handleTransaction_rejected:
  assumes "take 10 (data tx) \<in> set allowed"
    and "\<not> d (toLowerCase (g (from_address tx) (nonce tx)) @ newline @ take 10 (data tx))"
  shows "handleTransaction g d allowed w tx =
     (Some SendRejected,
      sendMessage (toLowerCase (g (from_address tx) (nonce tx)) @ newline @ take 10 (data tx)) w)"
  using assms by (simp add: handleTransaction_unfold)

text \<open>
  C3 as stated fails on both paths: on a fresh installation the listener's message for
  the example transaction, and the poller's message for the example record, are sent when
  no write of the JSON file has happened yet.
\<close>

theorem send_before_commit_counterexample:
  "\<not> notifiedAfterCommit (readJSON emptyWorld)
       (events (snd (handleTransaction exampleCreateAddress alwaysDelivered exampleAllowedMethods
          emptyWorld exampleTransaction)))
   \<and> \<not> notifiedAfterCommit (readJSON emptyWorld)
       (events (fetchAndSaveAddresses exampleRpc (Records exampleRecords) emptyWorld))"
  by (simp add: example_defs eval_defs)

section \<open>Two handlers at the same time\<close>

text \<open>
  The listener's step is its two stretches run one after the other; the read, the
  comparison and the write of an admission all lie in one stretch (\<open>admitStep\<close>, or
  \<open>saveAddresses\<close>), so in no order of the stretches does one admission's read or write
  fall between the read and the write of another.
\<close>

lemma handleTransaction_split:
  "snd (handleTransaction g d allowed w tx) = admitStep g d allowed tx (sendStep g allowed tx w)"
  by (simp add: handleTransaction_unfold admitStep_def sendStep_def Let_def)

lemma absent_simps:
  "absent [] es = True"
  "absent (c # cs) es = (address c \<notin> address ` set es \<and> absent cs es)"
  "absent (cs @ ds) es = (absent cs es \<and> absent ds es)"
  "absent cs (x # xs) = (address x \<notin> address ` set cs \<and> absent cs xs)"
  "absent cs (xs @ ys) = (absent cs xs \<and> absent cs ys)"
  "absent cs [] = True"
  unfolding absent_def list_all_iff list_ex_iff image_iff by auto

lemma absent_sym: "absent cs ds = absent ds cs"
  unfolding absent_def list_all_iff list_ex_iff by metis

lemma uniqueNewAddresses_absent: "absent new es \<Longrightarrow> uniqueNewAddresses new es = new"
  by (simp add: absent_def uniqueNewAddresses_def list_all_iff)

lemma sendStep_effect:
  "readJSON (sendStep g allowed tx w) = readJSON w"
  "sentMessages (events (sendStep g allowed tx w)) =
     sentMessages (events w)
     @ (if take 10 (data tx) \<in> set allowed
        then [toLowerCase (g (from_address tx) (nonce tx)) @ newline @ take 10 (data tx)] else [])"
  by (simp_all add: sendStep_def Let_def)

lemma admitStep_effect:
  "readJSON (admitStep g d allowed tx w) =
     (if take 10 (data tx) \<in> set allowed
         \<and> d (toLowerCase (g (from_address tx) (nonce tx)) @ newline @ take 10 (data tx))
         \<and> toLowerCase (g (from_address tx) (nonce tx)) \<notin> address ` set (readJSON w)
      then [\<lparr>address = toLowerCase (g (from_address tx) (nonce tx)),
              method = Some (take 10 (data tx))\<rparr>]
      else []) @ readJSON w"
  "sentMessages (events (admitStep g d allowed tx w)) = sentMessages (events w)"
  by (simp_all add: admitStep_def Let_def list_ex_address)

lemma saveAddresses_effect:
  assumes "absent new (readJSON w)"
  shows "readJSON (saveAddresses new w) = new @ readJSON w"
    and "sentMessages (events (saveAddresses new w)) = sentMessages (events w) @ map message new"
  using assms
  by (simp_all add: saveAddresses_readJSON saveAddresses_events uniqueNewAddresses_absent)

text \<open>
  C6. Take two handlers that admit at the same time, each a listener's step or a
  poller's save, in any order in which the runtime can run their stretches. When each
  listener's candidate passes the filter and has its message delivered, no candidate's
  address is in the JSON file yet, and no address of the one handler is an address of the
  other, then afterwards the JSON file holds the candidates of both in front of what it
  held (those of the handler that wrote last first), and the messages sent are those that
  were sent before followed by one for each candidate, those of either handler first.
\<close>

theorem concurrent_admits_both_succeed:
  assumes p1: "passes g d allowed t1" and p2: "passes g d allowed t2"
    and new: "absent (candidates g t1 @ candidates g t2) (readJSON w)"
    and apart: "absent (candidates g t1) (candidates g t2)"
    and s: "s \<in> set (interleavings (segments t1) (segments t2))"
  shows "(readJSON (runSchedule g d allowed s w) = candidates g t1 @ candidates g t2 @ readJSON w
          \<or> readJSON (runSchedule g d allowed s w) = candidates g t2 @ candidates g t1 @ readJSON w)
       \<and> (sentMessages (events (runSchedule g d allowed s w))
            = sentMessages (events w) @ map message (candidates g t1) @ map message (candidates g t2)
          \<or> sentMessages (events (runSchedule g d allowed s w))
            = sentMessages (events w) @ map message (candidates g t2) @ map message (candidates g t1))"
proof -
  from apart have apart': "absent (candidates g t2) (candidates g t1)"
    by (simp add: absent_sym)
  note facts = p1 p2 new apart apart'
  note effects = sendStep_effect admitStep_effect saveAddresses_effect absent_simps
    message_def showMethod_def runSchedule_def
  show ?thesis
  proof (cases t1)
    case l1: (ListenerTask tx1)
    show ?thesis
    proof (cases t2)
      case l2: (ListenerTask tx2)
      with l1 s facts show ?thesis
        by (auto simp: effects)
    next
      case q2: (PollerTask new2)
      with l1 s facts show ?thesis
        by (auto simp: effects)
    qed
  next
    case q1: (PollerTask new1)
    show ?thesis
    proof (cases t2)
      case l2: (ListenerTask tx2)
      with q1 s facts show ?thesis
        by (auto simp: effects)
    next
      case q2: (PollerTask new2)
      with q1 s facts show ?thesis
        by (auto simp: effects)
    qed
  qed
qed

theorem concurrent_admits_both_succeed_witness:
  "passes exampleCreateAddress alwaysDelivered exampleAllowedMethods (ListenerTask exampleTransaction)
   \<and> passes exampleCreateAddress alwaysDelivered exampleAllowedMethods (PollerTask [otherEntry])
   \<and> absent (candidates exampleCreateAddress (ListenerTask exampleTransaction)
        @ candidates exampleCreateAddress (PollerTask [otherEntry])) (readJSON emptyWorld)
   \<and> absent (candidates exampleCreateAddress (ListenerTask exampleTransaction))
        (candidates exampleCreateAddress (PollerTask [otherEntry]))
   \<and> [ListenerSend exampleTransaction, PollerSave [otherEntry], ListenerAdmit exampleTransaction]
      \<in> set (interleavings (segments (ListenerTask exampleTransaction))
          (segments (PollerTask [otherEntry])))
   \<and> readJSON (runSchedule exampleCreateAddress alwaysDelivered exampleAllowedMethods
        [ListenerSend exampleTransaction, PollerSave [otherEntry], ListenerAdmit exampleTransaction]
        emptyWorld) = [exampleEntry, otherEntry]
   \<and> sentMessages (events (runSchedule exampleCreateAddress alwaysDelivered exampleAllowedMethods
        [ListenerSend exampleTransaction, PollerSave [otherEntry], ListenerAdmit exampleTransaction]
        emptyWorld)) = [message exampleEntry, message otherEntry]"
proof -
  have p1: "passes exampleCreateAddress alwaysDelivered exampleAllowedMethods
      (ListenerTask exampleTransaction)"
    by (simp add: example_defs)
  have p2: "passes exampleCreateAddress alwaysDelivered exampleAllowedMethods
      (PollerTask [otherEntry])"
    by simp
  have n: "absent (candidates exampleCreateAddress (ListenerTask exampleTransaction)
        @ candidates exampleCreateAddress (PollerTask [otherEntry])) (readJSON emptyWorld)"
    by (simp add: absent_def emptyWorld_def readJSON_def)
  have a: "absent (candidates exampleCreateAddress (ListenerTask exampleTransaction))
        (candidates exampleCreateAddress (PollerTask [otherEntry]))"
    by (simp add: absent_def example_defs toLowerCase_def toLowerChar_def)
  have s: "[ListenerSend exampleTransaction, PollerSave [otherEntry],
        ListenerAdmit exampleTransaction]
      \<in> set (interleavings (segments (ListenerTask exampleTransaction))
          (segments (PollerTask [otherEntry])))"
    by simp
  have r: "runSchedule exampleCreateAddress alwaysDelivered exampleAllowedMethods
        [ListenerSend exampleTransaction, PollerSave [otherEntry], ListenerAdmit exampleTransaction]
        emptyWorld
      = \<lparr>outputJSON = Some [exampleEntry, otherEntry],
         outputTXT = Some (''0xe7f1725e7734ce288f8367e1bb143e90bb3f0512'' @ newline),
         events = [SendMessage (message exampleEntry), SendMessage (message otherEntry),
                   WriteJSON [otherEntry],
                   WriteTXT (''0xe7f1725e7734ce288f8367e1bb143e90bb3f0512'' @ newline),
                   WriteJSON [exampleEntry, otherEntry]]\<rparr>"
    by (simp add: runSchedule_def sendStep_def admitStep_def example_defs eval_defs)
  show ?thesis
    using p1 p2 n a s concurrent_admits_both_succeed [OF p1 p2 n a s]
    by (simp add: r readJSON_def)
qed

section \<open>Uniqueness of addresses\<close>

text \<open>
  The listener's step keeps the addresses of the JSON file distinct, and so does the
  poller's save when the new entries have distinct addresses among themselves.
\<close>

lemma handleTransaction_distinct:
  assumes "distinct (map address (readJSON w))"
  shows "distinct (map address (readJSON (snd (handleTransaction g d allowed w tx))))"
  using assms by (auto simp: handleTransaction_readJSON list_ex_iff)

lemma uniqueNewAddresses_distinct:
  assumes "distinct (map address new)"
  shows "distinct (map address (uniqueNewAddresses new ex))"
  using assms by (simp add: uniqueNewAddresses_def distinct_map_filter)

lemma saveAddresses_distinct:
  assumes "distinct (map address new)" and "distinct (map address (readJSON w))"
  shows "distinct (map address (readJSON (saveAddresses new w)))"
  using assms uniqueNewAddresses_distinct [of new "readJSON w"]
  by (auto simp: saveAddresses_readJSON uniqueNewAddresses_def list_ex_iff)

text \<open>
  C1 at a failing input. The poller compares the new entries with the existing ones only,
  not with one another: on a fresh installation, a response that lists the same token
  twice (once in checksum case, once in lower case) leaves two entries with the same
  address in the JSON file.
\<close>

theorem poll_duplicate_records_both_admitted:
  "readJSON (fetchAndSaveAddresses exampleRpc (Records duplicateRecords) emptyWorld)
     = [polledEntry, polledEntry]
   \<and> \<not> distinct (map address
        (readJSON (fetchAndSaveAddresses exampleRpc (Records duplicateRecords) emptyWorld)))"
  by (simp add: example_defs eval_defs)

section \<open>The listener and the TXT mirror\<close>

text \<open>
  C2 at a failing input. The listener writes the JSON file only: after it has admitted
  the example transaction on a fresh installation, the JSON file describes one address
  and the TXT file, which still does not exist, none.
\<close>

theorem listener_admission_skips_txt_mirror:
  "jsonAddresses (snd (handleTransaction exampleCreateAddress alwaysDelivered
       exampleAllowedMethods emptyWorld exampleTransaction))
     = {''0x5fbdb2315678afecb367f032d93f642f64180aa3''}
   \<and> txtAddresses (snd (handleTransaction exampleCreateAddress alwaysDelivered
       exampleAllowedMethods emptyWorld exampleTransaction)) = {}
   \<and> outputTXT (snd (handleTransaction exampleCreateAddress alwaysDelivered
       exampleAllowedMethods emptyWorld exampleTransaction)) = None"
  by (simp add: example_defs eval_defs jsonAddresses_def txtAddresses_def)

section \<open>Messages of the listener for known addresses\<close>

text \<open>
  C4 at a failing input. The listener sends its message before it looks the address up:
  when the poller has already admitted the token, the listener's step on the creating
  transaction sends a message and admits nothing.
\<close>

theorem listener_notifies_known_address:
  "handleTransaction exampleCreateAddress alwaysDelivered exampleAllowedMethods
     \<lparr>outputJSON = Some [polledEntry],
      outputTXT = Some (''0x5fbdb2315678afecb367f032d93f642f64180aa3'' @ newline),
      events = []\<rparr> exampleTransaction
   = (None, \<lparr>outputJSON = Some [polledEntry],
             outputTXT = Some (''0x5fbdb2315678afecb367f032d93f642f64180aa3'' @ newline),
             events = [SendMessage (''0x5fbdb2315678afecb367f032d93f642f64180aa3'' @ newline
                         @ ''0x60806040'')]\<rparr>)"
  by (simp add: example_defs eval_defs)

end
